theory Spec2Isabelle
  imports Main "HOL-Library.Sublist"
begin

section \<open>Shared data model\<close>

text \<open>
  The extension consists of a background service worker (background.js, the Coordinator),
  a content script (the Detector) and a consent page (the Consent Surface). JavaScript
  objects are modelled as records, a field that may be \<open>null\<close>, \<open>undefined\<close> or absent
  as an \<open>option\<close>, and strings as \<open>string\<close>. Time stamps are produced by
  \<open>new Date().toISOString()\<close> and read back by \<open>new Date(...).getTime()\<close>; they are
  modelled by the millisecond value they denote.
\<close>

record session_data =
  sessionId :: "string option"
  userId :: "string option"
  username :: "string option"
  extractedAt :: "string option"
  url :: "string option"

text \<open>\<open>v || d\<close> on a string field: \<open>null\<close>, \<open>undefined\<close> and the empty string are falsy.\<close>

definition js_or :: "string option \<Rightarrow> string \<Rightarrow> string" where
  "js_or v d = (case v of None \<Rightarrow> d | Some s \<Rightarrow> if s = [] then d else s)"

definition truthy :: "string option \<Rightarrow> bool" where
  "truthy v = (case v of None \<Rightarrow> False | Some s \<Rightarrow> s \<noteq> [])"

section \<open>Background service worker (background.js)\<close>

subsection \<open>Configuration and state\<close>

definition MAX_SESSION_HISTORY :: nat where
  "MAX_SESSION_HISTORY = 100"

definition MAX_LOG_ENTRIES :: nat where
  "MAX_LOG_ENTRIES = 1000"

definition LOG_CLEANUP_INTERVAL :: int where
  "LOG_CLEANUP_INTERVAL = 86400000"

definition EXTENSION_VERSION :: string where
  "EXTENSION_VERSION = ''2.0.0''"

record telegram_settings =
  botToken :: string
  chatId :: string
  messageTemplate :: string

record privacy_settings =
  autoClearData :: bool
  clearOnClose :: bool
  showNotifications :: bool
  consentReminders :: bool
  requireConfirmation :: bool
  logActivities :: bool

record extension_settings =
  telegram :: telegram_settings
  privacy :: privacy_settings

record history_entry =
  h_sessionId :: "string option"
  h_userId :: "string option"
  h_username :: "string option"
  h_url :: "string option"
  h_tabId :: int
  h_detectedAt :: int
  h_processed :: bool
  h_processedAt :: "int option"
  h_id :: string

record activity_entry =
  a_id :: string
  a_timestamp :: int
  a_activity :: string
  a_data :: "(string \<times> string) list"

record error_entry =
  e_id :: string
  e_timestamp :: int
  e_type :: string
  e_message :: string
  e_stack :: string
  e_extensionVersion :: string

record js_error =
  err_message :: string
  err_stack :: string

record active_session =
  as_sessionData :: session_data
  as_tabId :: int
  as_detectedAt :: int
  as_processed :: bool

text \<open>The keys of \<open>chrome.storage.local\<close> that the modelled functions write or remove.\<close>

record local_storage =
  st_sessionHistory :: "history_entry list option"
  st_activityLogs :: "activity_entry list option"
  st_errorLogs :: "error_entry list option"
  st_pendingSessionData :: "session_data option"
  st_consentRequestTime :: "int option"

text \<open>One \<open>fetch\<close> of the sink's \<open>sendMessage\<close> endpoint, and what comes back.\<close>

record sink_request =
  rq_botToken :: string
  rq_chatId :: string
  rq_text :: string

datatype fetch_outcome =
    FetchThrows string
  | JsonOk int
  | JsonNotOk "string option"

datatype send_result = SendSuccess int | SendFailure string

text \<open>What \<open>sendResponse\<close> and \<open>chrome.tabs.sendMessage\<close> carry back.\<close>

datatype response = RespSuccess int | RespFailure string

text \<open>
  \<open>backgroundState\<close>, together with the durable store and the trace of the effects that
  leave the worker: the requests sent to the sink, the calls of \<open>sendResponse\<close> and the
  \<open>consentProcessed\<close> messages sent to tabs. \<open>activeSessions\<close> is a JavaScript
  \<open>Map\<close>: its entries in insertion order.
\<close>

record background_state =
  extensionSettings :: "extension_settings option"
  activeSessions :: "(string \<times> active_session) list"
  sessionHistory :: "history_entry list"
  activityLogs :: "activity_entry list"
  errorLogs :: "error_entry list"
  errorCount :: nat
  storage :: local_storage
  netCalls :: "sink_request list"
  responses :: "response list"
  tabMessages :: "(int \<times> response) list"

text \<open>
  What the worker reads from outside: the clock (\<open>Date.now()\<close>), the value of
  \<open>generateUniqueId()\<close>, the sink's answer to a request, and the locale rendering
  \<open>new Date(extractedAt).toLocaleString()\<close>.
\<close>

record env =
  now :: int
  uid :: string
  fetchJson :: "sink_request \<Rightarrow> fetch_outcome"
  toLocaleString :: "string option \<Rightarrow> string"

subsection \<open>Logging\<close>

definition limit :: "nat \<Rightarrow> 'a list \<Rightarrow> 'a list" where
  "limit n xs = (if length xs > n then take n xs else xs)"

definition logActivity ::
  "env \<Rightarrow> string \<Rightarrow> (string \<times> string) list \<Rightarrow> background_state \<Rightarrow> background_state" where
  "logActivity ev activity dat s =
     (let logEntry = \<lparr>a_id = uid ev, a_timestamp = now ev, a_activity = activity, a_data = dat\<rparr>;
          logs = limit MAX_LOG_ENTRIES (logEntry # activityLogs s);
          s1 = s\<lparr>activityLogs := logs\<rparr>
      in case extensionSettings s of
           None \<Rightarrow> s1
         | Some cfg \<Rightarrow>
             if logActivities (privacy cfg)
             then s1\<lparr>storage := (storage s1)\<lparr>st_activityLogs := Some logs\<rparr>\<rparr>
             else s1)"

definition logError :: "env \<Rightarrow> string \<Rightarrow> js_error \<Rightarrow> background_state \<Rightarrow> background_state" where
  "logError ev errorType err s =
     (let errorEntry = \<lparr>e_id = uid ev, e_timestamp = now ev, e_type = errorType,
                         e_message = err_message err, e_stack = err_stack err,
                         e_extensionVersion = EXTENSION_VERSION\<rparr>;
          logs = limit MAX_LOG_ENTRIES (errorEntry # errorLogs s);
          s1 = s\<lparr>errorCount := errorCount s + 1, errorLogs := logs\<rparr>
      in s1\<lparr>storage := (storage s1)\<lparr>st_errorLogs := Some logs\<rparr>\<rparr>)"

definition performLogCleanup :: "env \<Rightarrow> background_state \<Rightarrow> background_state" where
  "performLogCleanup ev s =
     (let cleanupThreshold = now ev - LOG_CLEANUP_INTERVAL;
          acts = filter (\<lambda>entry. a_timestamp entry > cleanupThreshold) (activityLogs s);
          errs = filter (\<lambda>entry. e_timestamp entry > cleanupThreshold) (errorLogs s);
          s1 = s\<lparr>activityLogs := acts, errorLogs := errs\<rparr>
      in s1\<lparr>storage := (storage s1)\<lparr>st_activityLogs := Some acts, st_errorLogs := Some errs\<rparr>\<rparr>)"

subsection \<open>Session history and active sessions\<close>

definition addToSessionHistory :: "env \<Rightarrow> session_data \<Rightarrow> int \<Rightarrow> background_state \<Rightarrow> background_state" where
  "addToSessionHistory ev sd tabId s =
     (let historyEntry = \<lparr>h_sessionId = sessionId sd, h_userId = userId sd,
                           h_username = username sd, h_url = url sd, h_tabId = tabId,
                           h_detectedAt = now ev, h_processed = False,
                           h_processedAt = None, h_id = uid ev\<rparr>;
          hist = limit MAX_SESSION_HISTORY (historyEntry # sessionHistory s);
          s1 = s\<lparr>sessionHistory := hist\<rparr>
      in s1\<lparr>storage := (storage s1)\<lparr>st_sessionHistory := Some hist\<rparr>\<rparr>)"

text \<open>
  \<open>Array.prototype.find\<close> returns the first matching entry, which is then mutated in
  place; nothing happens when there is none.
\<close>

fun update_first :: "('a \<Rightarrow> bool) \<Rightarrow> ('a \<Rightarrow> 'a) \<Rightarrow> 'a list \<Rightarrow> 'a list option" where
  "update_first p f [] = None"
| "update_first p f (x # xs) =
     (if p x then Some (f x # xs)
      else case update_first p f xs of None \<Rightarrow> None | Some ys \<Rightarrow> Some (x # ys))"

definition updateSessionHistory :: "env \<Rightarrow> string option \<Rightarrow> string \<Rightarrow> background_state \<Rightarrow> background_state" where
  "updateSessionHistory ev sid status s =
     (case update_first (\<lambda>h. h_sessionId h = sid)
             (\<lambda>h. h\<lparr>h_processed := (status = ''processed''), h_processedAt := Some (now ev)\<rparr>)
             (sessionHistory s) of
        None \<Rightarrow> s
      | Some hist \<Rightarrow>
          s\<lparr>sessionHistory := hist, storage := (storage s)\<lparr>st_sessionHistory := Some hist\<rparr>\<rparr>)"

text \<open>
  \<open>Map.prototype.delete\<close>, and the iteration
  \<open>for (const [key, session] of activeSessions.entries()) if (...) activeSessions.delete(key)\<close>:
  the entries are visited in order and the map is updated at each hit.
\<close>

definition map_delete :: "string \<Rightarrow> (string \<times> 'v) list \<Rightarrow> (string \<times> 'v) list" where
  "map_delete k m = filter (\<lambda>e. fst e \<noteq> k) m"

fun delete_where :: "('v \<Rightarrow> bool) \<Rightarrow> (string \<times> 'v) list \<Rightarrow> (string \<times> 'v) list \<Rightarrow> (string \<times> 'v) list" where
  "delete_where p [] m = m"
| "delete_where p (e # es) m = delete_where p es (if p (snd e) then map_delete (fst e) m else m)"

definition cleanupTabSessions :: "int \<Rightarrow> background_state \<Rightarrow> background_state" where
  "cleanupTabSessions tabId s =
     s\<lparr>activeSessions :=
         delete_where (\<lambda>session. as_tabId session = tabId) (activeSessions s) (activeSessions s)\<rparr>"

definition clearSessionData :: "string option \<Rightarrow> background_state \<Rightarrow> background_state" where
  "clearSessionData sid s =
     s\<lparr>activeSessions :=
         delete_where (\<lambda>session. sessionId (as_sessionData session) = sid)
           (activeSessions s) (activeSessions s),
       storage := (storage s)\<lparr>st_pendingSessionData := None, st_consentRequestTime := None\<rparr>\<rparr>"

subsection \<open>Template formatting\<close>

text \<open>
  \<open>String.prototype.replace\<close> with a global literal pattern and a replacement string.
  The replacement text of one match is computed by \<open>GetSubstitution\<close>: \<open>$$\<close> stands
  for a dollar sign, \<open>$&\<close> for the matched text, \<open>$`\<close> for the part of the subject
  before the match and \<open>$'\<close> for the part after it; the patterns used here have no
  capture groups, so any other \<open>$\<close> is literal. Matches are found from left to right and
  do not overlap; \<open>pre\<close> is the part of the subject already consumed.
\<close>

fun getSubstitution :: "string \<Rightarrow> string \<Rightarrow> string \<Rightarrow> string \<Rightarrow> string" where
  "getSubstitution matched before after [] = []"
| "getSubstitution matched before after [c] = [c]"
| "getSubstitution matched before after (c # d # r) =
     (if c = CHR ''$'' then
        (if d = CHR ''$'' then CHR ''$'' # getSubstitution matched before after r
         else if d = CHR ''&'' then matched @ getSubstitution matched before after r
         else if d = CHR 0x60 then before @ getSubstitution matched before after r
         else if d = CHR 0x27 then after @ getSubstitution matched before after r
         else c # getSubstitution matched before after (d # r))
      else c # getSubstitution matched before after (d # r))"

function replaceFrom :: "string \<Rightarrow> string \<Rightarrow> string \<Rightarrow> string \<Rightarrow> string" where
  "replaceFrom pat rep pre [] = []"
| "replaceFrom pat rep pre (c # cs) =
     (if pat \<noteq> [] \<and> prefix pat (c # cs)
      then getSubstitution pat pre (drop (length pat) (c # cs)) rep
             @ replaceFrom pat rep (pre @ pat) (drop (length pat) (c # cs))
      else c # replaceFrom pat rep (pre @ [c]) cs)"
  by pat_completeness auto
termination
  by (relation "measure (\<lambda>(pat, rep, pre, s). length s)") (auto simp: neq_Nil_conv)

definition replaceAll :: "string \<Rightarrow> string \<Rightarrow> string \<Rightarrow> string" where
  "replaceAll pat rep s = replaceFrom pat rep [] s"

text \<open>
  \<open>DEFAULT_SETTINGS.telegram.messageTemplate\<close>. The pictographs and bullets of the source are
  written as their UTF-8 bytes; the placeholders are plain ASCII.
\<close>

definition DEFAULT_MESSAGE_TEMPLATE :: string where
  "DEFAULT_MESSAGE_TEMPLATE =
     [CHR 0xF0, CHR 0x9F, CHR 0x94, CHR 0x90] @ '' Instagram Session Data Detected'' @ [CHR 0x0A, CHR 0x0A]
     @ [CHR 0xF0, CHR 0x9F, CHR 0x93, CHR 0xB1] @ '' **Account Information:**'' @ [CHR 0x0A]
     @ [CHR 0xE2, CHR 0x80, CHR 0xA2] @ '' Session ID: {sessionId}'' @ [CHR 0x0A]
     @ [CHR 0xE2, CHR 0x80, CHR 0xA2] @ '' User ID: {userId}'' @ [CHR 0x0A]
     @ [CHR 0xE2, CHR 0x80, CHR 0xA2] @ '' Username: {username}'' @ [CHR 0x0A, CHR 0x0A]
     @ [CHR 0xE2, CHR 0x8F, CHR 0xB0] @ '' **Timestamp:** {timestamp}'' @ [CHR 0x0A]
     @ [CHR 0xF0, CHR 0x9F, CHR 0x8C, CHR 0x90] @ '' **URL:** {url}'' @ [CHR 0x0A, CHR 0x0A]
     @ [CHR 0xE2, CHR 0x9C, CHR 0x85]
     @ '' Data extracted with user consent via Instagram Auto Session Manager''"

definition formatTelegramMessage :: "env \<Rightarrow> session_data \<Rightarrow> string \<Rightarrow> string" where
  "formatTelegramMessage ev sd template =
     (let t = (if template = [] then DEFAULT_MESSAGE_TEMPLATE else template) in
      replaceAll ''{url}'' (js_or (url sd) ''Unknown'')
       (replaceAll ''{timestamp}'' (toLocaleString ev (extractedAt sd))
         (replaceAll ''{username}'' (js_or (username sd) ''Not found'')
           (replaceAll ''{userId}'' (js_or (userId sd) ''Not found'')
             (replaceAll ''{sessionId}'' (js_or (sessionId sd) ''Not found'') t)))))"

text \<open>The five placeholder tokens, and whether a message still contains one of them.\<close>

definition PLACEHOLDERS :: "string list" where
  "PLACEHOLDERS = [''{sessionId}'', ''{userId}'', ''{username}'', ''{timestamp}'', ''{url}'']"

fun contains :: "string \<Rightarrow> string \<Rightarrow> bool" where
  "contains pat [] = (pat = [])"
| "contains pat (c # cs) = (prefix pat (c # cs) \<or> contains pat cs)"

definition has_placeholder :: "string \<Rightarrow> bool" where
  "has_placeholder s = list_ex (\<lambda>p. contains p s) PLACEHOLDERS"

subsection \<open>Delivery to the sink\<close>

definition sendTelegramMessage ::
  "env \<Rightarrow> string \<Rightarrow> string \<Rightarrow> string \<Rightarrow> background_state \<Rightarrow> send_result \<times> background_state" where
  "sendTelegramMessage ev token chat message s =
     (let rq = \<lparr>rq_botToken = token, rq_chatId = chat, rq_text = message\<rparr>;
          s1 = s\<lparr>netCalls := netCalls s @ [rq]\<rparr>
      in case fetchJson ev rq of
           JsonOk mid \<Rightarrow> (SendSuccess mid, s1)
         | JsonNotOk description \<Rightarrow> (SendFailure (js_or description ''Failed to send message''), s1)
         | FetchThrows m \<Rightarrow> (SendFailure m, s1))"

text \<open>Reading \<open>.telegram\<close> of the \<open>null\<close> settings object throws this \<open>TypeError\<close>.\<close>

definition NULL_SETTINGS_ERROR :: string where
  "NULL_SETTINGS_ERROR = ''Cannot read properties of null (reading '' @ [CHR 0x27] @ ''telegram'' @ [CHR 0x27] @ '')''"

definition NOT_CONFIGURED :: string where
  "NOT_CONFIGURED = ''Telegram bot not configured''"

definition sendToTelegram :: "env \<Rightarrow> session_data \<Rightarrow> background_state \<Rightarrow> send_result \<times> background_state" where
  "sendToTelegram ev sd s =
     (case extensionSettings s of
        None \<Rightarrow> (SendFailure NULL_SETTINGS_ERROR, s)
      | Some cfg \<Rightarrow>
          if botToken (telegram cfg) = [] \<or> chatId (telegram cfg) = []
          then (SendFailure NOT_CONFIGURED, s)
          else (case sendTelegramMessage ev (botToken (telegram cfg)) (chatId (telegram cfg))
                       (formatTelegramMessage ev sd (messageTemplate (telegram cfg))) s of
                  (SendSuccess mid, s1) \<Rightarrow> (SendSuccess mid, s1)
                | (SendFailure e, s1) \<Rightarrow> (SendFailure e, s1)))"

definition validateSessionData :: "session_data option \<Rightarrow> bool" where
  "validateSessionData sessionData =
     (case sessionData of
        None \<Rightarrow> False
      | Some sd \<Rightarrow>
          if \<not> truthy (sessionId sd) \<or> \<not> truthy (extractedAt sd) then False
          else if length (the (sessionId sd)) < 20 then False
          else True)"

record process_message =
  pm_sessionData :: "session_data option"
  pm_consentType :: string

text \<open>
  The \<open>catch\<close> block of \<open>handleProcessSessionData\<close> and the branch taken after a
  successful send; \<open>sender\<close> is \<open>sender.tab.id\<close>, if the message came from a tab. The
  engine-dependent \<open>error.stack\<close> is left empty, and of the data attached to the activity
  entry only the string-valued fields are kept.
\<close>

definition processFailed :: "env \<Rightarrow> int option \<Rightarrow> string \<Rightarrow> background_state \<Rightarrow> background_state" where
  "processFailed ev sender msg s =
     (let s1 = logError ev ''session_processing_error'' \<lparr>err_message = msg, err_stack = []\<rparr> s;
          s2 = s1\<lparr>responses := responses s1 @ [RespFailure msg]\<rparr>
      in case sender of
           None \<Rightarrow> s2
         | Some tab \<Rightarrow> s2\<lparr>tabMessages := tabMessages s2 @ [(tab, RespFailure msg)]\<rparr>)"

definition processSucceeded ::
  "env \<Rightarrow> extension_settings \<Rightarrow> session_data \<Rightarrow> string \<Rightarrow> int option \<Rightarrow> int \<Rightarrow> background_state \<Rightarrow> background_state" where
  "processSucceeded ev cfg sd consentType sender mid s =
     (let s1 = logActivity ev ''session_processed''
                 [(''sessionId'', take 10 (the (sessionId sd)) @ ''...''), (''consentType'', consentType)] s;
          s2 = updateSessionHistory ev (sessionId sd) ''processed'' s1;
          s3 = (if autoClearData (privacy cfg) then clearSessionData (sessionId sd) s2 else s2);
          s4 = s3\<lparr>responses := responses s3 @ [RespSuccess mid]\<rparr>
      in case sender of
           None \<Rightarrow> s4
         | Some tab \<Rightarrow> s4\<lparr>tabMessages := tabMessages s4 @ [(tab, RespSuccess mid)]\<rparr>)"

definition handleProcessSessionData ::
  "env \<Rightarrow> process_message \<Rightarrow> int option \<Rightarrow> background_state \<Rightarrow> background_state" where
  "handleProcessSessionData ev message sender s =
     (if \<not> validateSessionData (pm_sessionData message)
      then processFailed ev sender ''Invalid session data'' s
      else case extensionSettings s of
        None \<Rightarrow> processFailed ev sender NULL_SETTINGS_ERROR s
      | Some cfg \<Rightarrow>
          if botToken (telegram cfg) = [] \<or> chatId (telegram cfg) = []
          then processFailed ev sender NOT_CONFIGURED s
          else (case sendToTelegram ev (the (pm_sessionData message)) s of
                  (SendSuccess mid, s1) \<Rightarrow>
                    processSucceeded ev cfg (the (pm_sessionData message)) (pm_consentType message)
                      sender mid s1
                | (SendFailure e, s1) \<Rightarrow>
                    processFailed ev sender (if e = [] then ''Failed to send to Telegram'' else e) s1))"

section \<open>Content script (the Detector)\<close>



text \<open>
  The settings as the content script loads them: \<open>result.telegramSettings || {}\<close> and
  \<open>result.privacySettings || { requireConfirmation: true }\<close>, so every field may be absent.
\<close>

record content_settings =
  cs_botToken :: "string option"
  cs_chatId :: "string option"
  cs_requireConfirmation :: "bool option"
  cs_autoClearData :: "bool option"

record user_choice =
  uc_consent :: string
  uc_timestamp :: int
  uc_sessionId :: "string option"

text \<open>The messages the content script sends with \<open>chrome.runtime.sendMessage\<close>.\<close>

datatype content_message =
    ProcessSessionData "session_data option" string
  | OpenConsentPage "session_data option"
  | LogActivityMsg string
  | ReportError string string

text \<open>
  \<open>contentState\<close>, with the durable store, the messages sent to the background worker,
  the windows opened by the fallback \<open>window.open\<close> and the notifications shown on the
  page (message and type).
\<close>

record content_state =
  sessionDetected :: bool
  c_sessionData :: "session_data option"
  checkAttempts :: nat
  consentRequested :: bool
  consentGiven :: bool
  lastConsentRequest :: int
  userChoice :: "user_choice option"
  c_extensionSettings :: "content_settings option"
  isInitialized :: bool
  isProcessing :: bool
  c_storage :: local_storage
  outbox :: "content_message list"
  windowsOpened :: nat
  notifications :: "(string \<times> string) list"

text \<open>The clock of the page and whether a \<open>sendMessage\<close> call resolves or rejects.\<close>

record content_env =
  c_now :: int
  sendResolves :: "content_message \<Rightarrow> bool"

definition showNotification :: "string \<Rightarrow> string \<Rightarrow> content_state \<Rightarrow> content_state" where
  "showNotification message type s = s\<lparr>notifications := notifications s @ [(message, type)]\<rparr>"










text \<open>The Detector's \<open>clearSessionData\<close> and the handlers that call it.\<close>

definition c_clearSessionData :: "content_state \<Rightarrow> content_state" where
  "c_clearSessionData s =
     s\<lparr>c_sessionData := None, sessionDetected := False, consentRequested := False,
       userChoice := None,
       c_storage := (c_storage s)\<lparr>st_pendingSessionData := None, st_consentRequestTime := None\<rparr>\<rparr>"

definition handleClearSessionData :: "content_state \<Rightarrow> content_state" where
  "handleClearSessionData s = showNotification ''Session data cleared'' ''info'' (c_clearSessionData s)"

definition handleConsentProcessed :: "content_env \<Rightarrow> response \<Rightarrow> content_state \<Rightarrow> content_state" where
  "handleConsentProcessed ev dat s =
     (let s1 = (case dat of
                  RespSuccess mid \<Rightarrow>
                    (let s2 = s\<lparr>userChoice := Some \<lparr>uc_consent = ''granted'', uc_timestamp = c_now ev,
                                   uc_sessionId = (case c_sessionData s of None \<Rightarrow> None
                                                   | Some d \<Rightarrow> sessionId d)\<rparr>\<rparr>;
                         s3 = showNotification ''Session data sent successfully!'' ''success'' s2
                     in case c_extensionSettings s3 of
                          None \<Rightarrow> s3
                        | Some cfg \<Rightarrow> if cs_autoClearData cfg = Some True then c_clearSessionData s3 else s3)
                | RespFailure e \<Rightarrow> showNotification (''Error: '' @ e) ''error'' s)
      in s1\<lparr>isProcessing := False, consentRequested := False\<rparr>)"

section \<open>Consent page (the Consent Surface)\<close>

text \<open>
  What the consent page reads from its window when it extracts: \<open>document.cookie\<close>,
  \<open>window.location.href\<close>, the clock, and the identity fields that the scan of the page
  (\<open>window._sharedData\<close>, script bodies, path, meta tags) yields. That scan runs inside
  its own \<open>try\<close>/\<open>catch\<close> and only fills \<open>userId\<close> and \<open>username\<close>.
\<close>

record page =
  pg_cookie :: string
  pg_href :: string
  pg_isoNow :: string
  pg_userId :: "string option"
  pg_username :: "string option"

record consent_settings =
  k_botToken :: "string option"
  k_chatId :: "string option"
  k_messageTemplate :: "string option"
  k_autoClearData :: "bool option"
  k_logActivities :: "bool option"

datatype overlay = SuccessOverlay string | ErrorOverlay string

text \<open>
  \<open>appState\<close>, with the requests sent to the sink, the overlays shown and the log
  messages sent to the background worker.
\<close>

record app_state =
  ap_sessionData :: "session_data option"
  ap_extensionSettings :: "consent_settings option"
  ap_isProcessing :: bool
  ap_rememberChoice :: bool
  ap_currentStep :: string
  ap_netCalls :: "sink_request list"
  ap_overlays :: "overlay list"
  ap_logged :: "string list"

text \<open>\<open>String.prototype.split\<close> on a one-character separator and \<open>trim\<close>.\<close>

fun split_on :: "char \<Rightarrow> string \<Rightarrow> string list" where
  "split_on sep [] = [] # []"
| "split_on sep (c # cs) =
     (if c = sep then [] # split_on sep cs
      else case split_on sep cs of
             [] \<Rightarrow> [c] # []
           | part # parts \<Rightarrow> (c # part) # parts)"

definition is_space :: "char \<Rightarrow> bool" where
  "is_space c = (c \<in> set [CHR '' '', CHR 0x09, CHR 0x0A, CHR 0x0B, CHR 0x0C, CHR 0x0D])"

definition trim :: "string \<Rightarrow> string" where
  "trim s = rev (dropWhile is_space (rev (dropWhile is_space s)))"

text \<open>
  The cookie loop: \<open>const [name, value] = cookie.trim().split('=')\<close>, stopping at the
  first cookie named \<open>sessionid\<close>; \<open>value\<close> is \<open>undefined\<close> when the cookie has no
  \<open>=\<close>. The result is \<open>None\<close> when the loop ends without a hit.
\<close>

fun find_sessionid :: "string list \<Rightarrow> string option" where
  "find_sessionid [] = None"
| "find_sessionid (cookie # cookies) =
     (case split_on CHR ''='' (trim cookie) of
        [] \<Rightarrow> find_sessionid cookies
      | [name] \<Rightarrow> if name = ''sessionid'' then None else find_sessionid cookies
      | name # val # rest \<Rightarrow> if name = ''sessionid'' then Some val else find_sessionid cookies)"

definition extractInstagramSessionData :: "page \<Rightarrow> session_data option" where
  "extractInstagramSessionData pg =
     (let sid = find_sessionid (split_on CHR '';'' (pg_cookie pg)) in
      if \<not> truthy sid then None
      else Some \<lparr>sessionId = sid, userId = pg_userId pg, username = pg_username pg,
                  extractedAt = Some (pg_isoNow pg), url = Some (pg_href pg)\<rparr>)"

definition extractSessionDataForPreview :: "page \<Rightarrow> app_state \<Rightarrow> app_state" where
  "extractSessionDataForPreview pg s =
     (case extractInstagramSessionData pg of
        None \<Rightarrow> s
      | Some sd \<Rightarrow> s\<lparr>ap_sessionData := Some sd\<rparr>)"

text \<open>
  The consent page has its own copy of the formatter, with its own default template: the
  literal of the consent script, byte for byte as the file holds it (303 bytes; the
  pictographs of the background worker's template appear there in a damaged encoding). A
  missing URL falls back to the URL of the page.
\<close>

definition CONSENT_DEFAULT_MESSAGE_TEMPLATE :: string where
  "CONSENT_DEFAULT_MESSAGE_TEMPLATE =
     [CHR 0xEF, CHR 0xA3, CHR 0xBF, CHR 0xC3, CHR 0xBC, CHR 0xC3, CHR 0xAE, CHR 0xC3, CHR 0xAA] @ '' Instagram Session Data Detected'' @ [CHR 0x0A]
     @ [CHR 0x0A]
     @ [CHR 0xEF, CHR 0xA3, CHR 0xBF, CHR 0xC3, CHR 0xBC, CHR 0xC3, CHR 0xAC, CHR 0xC2, CHR 0xB1] @ '' **Account Information:**'' @ [CHR 0x0A]
     @ [CHR 0xE2, CHR 0x80, CHR 0x9A, CHR 0xC3, CHR 0x84, CHR 0xC2, CHR 0xA2] @ '' Session ID: {sessionId}'' @ [CHR 0x0A]
     @ [CHR 0xE2, CHR 0x80, CHR 0x9A, CHR 0xC3, CHR 0x84, CHR 0xC2, CHR 0xA2] @ '' User ID: {userId}'' @ [CHR 0x0A]
     @ [CHR 0xE2, CHR 0x80, CHR 0x9A, CHR 0xC3, CHR 0x84, CHR 0xC2, CHR 0xA2] @ '' Username: {username}'' @ [CHR 0x0A]
     @ [CHR 0x0A]
     @ [CHR 0xE2, CHR 0x80, CHR 0x9A, CHR 0xC3, CHR 0xA8, CHR 0xE2, CHR 0x88, CHR 0x9E] @ '' **Timestamp:** {timestamp}'' @ [CHR 0x0A]
     @ [CHR 0xEF, CHR 0xA3, CHR 0xBF, CHR 0xC3, CHR 0xBC, CHR 0xC3, CHR 0xA5, CHR 0xC3, CHR 0xAA] @ '' **URL:** {url}'' @ [CHR 0x0A]
     @ [CHR 0x0A]
     @ [CHR 0xE2, CHR 0x80, CHR 0x9A, CHR 0xC3, CHR 0xBA, CHR 0xC3, CHR 0x96] @ '' Data extracted with user consent via Instagram Auto Session Manager''"

definition k_formatTelegramMessage :: "env \<Rightarrow> page \<Rightarrow> session_data \<Rightarrow> string option \<Rightarrow> string" where
  "k_formatTelegramMessage ev pg sd template =
     (let t = js_or template CONSENT_DEFAULT_MESSAGE_TEMPLATE in
      replaceAll ''{url}'' (js_or (url sd) (pg_href pg))
       (replaceAll ''{timestamp}'' (toLocaleString ev (extractedAt sd))
         (replaceAll ''{username}'' (js_or (username sd) ''Not found'')
           (replaceAll ''{userId}'' (js_or (userId sd) ''Not found'')
             (replaceAll ''{sessionId}'' (js_or (sessionId sd) ''Not found'') t)))))"

definition logUserAction :: "string \<Rightarrow> app_state \<Rightarrow> app_state" where
  "logUserAction action s =
     (case ap_extensionSettings s of
        None \<Rightarrow> s
      | Some cfg \<Rightarrow> if k_logActivities cfg = Some True then s\<lparr>ap_logged := ap_logged s @ [action]\<rparr> else s)"

text \<open>
  \<open>sendDataToTelegram\<close> either returns normally or throws; the first component of the
  result is the message of the thrown error, if any.
\<close>

definition sendDataToTelegram ::
  "env \<Rightarrow> page \<Rightarrow> session_data \<Rightarrow> app_state \<Rightarrow> string option \<times> app_state" where
  "sendDataToTelegram ev pg sd s =
     (case ap_extensionSettings s of
        None \<Rightarrow> (Some ''Cannot destructure property of null'', s)
      | Some cfg \<Rightarrow>
          if \<not> truthy (k_botToken cfg) \<or> \<not> truthy (k_chatId cfg) then (Some NOT_CONFIGURED, s)
          else
            (let rq = \<lparr>rq_botToken = the (k_botToken cfg), rq_chatId = the (k_chatId cfg),
                       rq_text = k_formatTelegramMessage ev pg sd (k_messageTemplate cfg)\<rparr>;
                 s1 = s\<lparr>ap_netCalls := ap_netCalls s @ [rq]\<rparr>
             in case fetchJson ev rq of
                  JsonOk mid \<Rightarrow> (None, s1)
                | JsonNotOk description \<Rightarrow>
                    (Some (js_or description ''Failed to send message to Telegram''), s1)
                | FetchThrows m \<Rightarrow> (Some m, s1)))"

definition clearLocalData :: "app_state \<Rightarrow> app_state" where
  "clearLocalData s = s\<lparr>ap_sessionData := None\<rparr>"

definition consentFailed :: "string \<Rightarrow> app_state \<Rightarrow> app_state" where
  "consentFailed msg s =
     logUserAction ''processing_error''
       (s\<lparr>ap_currentStep := ''error'',
          ap_overlays := ap_overlays s @ [ErrorOverlay (''Error processing your request: '' @ msg)]\<rparr>)"

definition autoClearEnabled :: "app_state \<Rightarrow> bool" where
  "autoClearEnabled s =
     (case ap_extensionSettings s of None \<Rightarrow> False | Some cfg \<Rightarrow> k_autoClearData cfg = Some True)"

definition consentSucceeded :: "app_state \<Rightarrow> app_state" where
  "consentSucceeded s =
     (let s1 = (if autoClearEnabled s then clearLocalData s else s);
          s2 = logUserAction ''data_sent_successfully'' s1
      in s2\<lparr>ap_currentStep := ''completed'',
            ap_overlays := ap_overlays s2 @ [SuccessOverlay
              ''Your Instagram session data has been successfully sent to your Telegram bot!'']\<rparr>)"

definition handleConsentAction :: "env \<Rightarrow> page \<Rightarrow> app_state \<Rightarrow> app_state" where
  "handleConsentAction ev pg s =
     (if ap_isProcessing s then s
      else
        (let s1 = logUserAction ''consent_given''
                    (s\<lparr>ap_isProcessing := True, ap_currentStep := ''processing''\<rparr>);
             s2 = (case extractInstagramSessionData pg of
                     None \<Rightarrow> consentFailed ''Failed to extract session data'' s1
                   | Some sessionData \<Rightarrow>
                       (case sendDataToTelegram ev pg sessionData s1 of
                          (Some msg, s3) \<Rightarrow> consentFailed msg s3
                        | (None, s3) \<Rightarrow> consentSucceeded s3))
         in s2\<lparr>ap_isProcessing := False\<rparr>))"

section \<open>Reference substitution\<close>

text \<open>
  The formatter of the source applies five global replacements one after the other. The
  reference reading of ``substituting named placeholders for each artifact field'' is a
  single pass over the template that puts, for each placeholder met, the value of its
  field. \<open>field_values\<close> lists the placeholders with the values the Coordinator's
  formatter passes to \<open>replace\<close>, \<open>k_field_values\<close> those of the consent page.
\<close>

definition field_values :: "env \<Rightarrow> session_data \<Rightarrow> (string \<times> string) list" where
  "field_values ev sd =
     [(''{sessionId}'', js_or (sessionId sd) ''Not found''),
      (''{userId}'', js_or (userId sd) ''Not found''),
      (''{username}'', js_or (username sd) ''Not found''),
      (''{timestamp}'', toLocaleString ev (extractedAt sd)),
      (''{url}'', js_or (url sd) ''Unknown'')]"

definition k_field_values :: "env \<Rightarrow> page \<Rightarrow> session_data \<Rightarrow> (string \<times> string) list" where
  "k_field_values ev pg sd =
     [(''{sessionId}'', js_or (sessionId sd) ''Not found''),
      (''{userId}'', js_or (userId sd) ''Not found''),
      (''{username}'', js_or (username sd) ''Not found''),
      (''{timestamp}'', toLocaleString ev (extractedAt sd)),
      (''{url}'', js_or (url sd) (pg_href pg))]"

function substitute_placeholders :: "(string \<times> string) list \<Rightarrow> string \<Rightarrow> string" where
  "substitute_placeholders vals [] = []"
| "substitute_placeholders vals (c # cs) =
     (case find (\<lambda>pv. fst pv \<noteq> [] \<and> prefix (fst pv) (c # cs)) vals of
        Some pv \<Rightarrow> snd pv @ substitute_placeholders vals (drop (length (fst pv)) (c # cs))
      | None \<Rightarrow> c # substitute_placeholders vals cs)"
  by pat_completeness auto
termination
  by (relation "measure (\<lambda>(vals, s). length s)") (auto simp: find_Some_iff neq_Nil_conv)

text \<open>
  A template is well formed when each of its opening braces begins one of the five
  placeholders; values are clean when they hold no opening brace and no dollar sign.
\<close>

fun well_formed_template :: "string \<Rightarrow> bool" where
  "well_formed_template [] = True"
| "well_formed_template (c # cs) =
     ((c = CHR ''{'' \<longrightarrow> list_ex (\<lambda>p. prefix p (c # cs)) PLACEHOLDERS) \<and> well_formed_template cs)"

definition clean_values :: "(string \<times> string) list \<Rightarrow> bool" where
  "clean_values vals = list_all (\<lambda>pv. CHR ''{'' \<notin> set (snd pv) \<and> CHR ''$'' \<notin> set (snd pv)) vals"

section \<open>Properties stated over the model\<close>

text \<open>A history is newest-first when the detection times never increase along it.\<close>

definition newest_first :: "history_entry list \<Rightarrow> bool" where
  "newest_first hs = sorted_wrt (\<lambda>a b. h_detectedAt a \<ge> h_detectedAt b) hs"

text \<open>Whether the \<open>logActivities\<close> toggle is on, read as \<open>logActivity\<close> reads it.\<close>

definition logging_enabled :: "background_state \<Rightarrow> bool" where
  "logging_enabled s =
     (case extensionSettings s of None \<Rightarrow> False | Some cfg \<Rightarrow> logActivities (privacy cfg))"

section \<open>Concrete inputs\<close>

definition ex_session :: session_data where
  "ex_session = \<lparr>sessionId = Some ''abcdefghij0123456789abcde'', userId = Some ''12345'',
                 username = Some ''alice'', extractedAt = Some ''2025-01-01T00:00:00.000Z'',
                 url = Some ''https://www.instagram.com/''\<rparr>"

definition ex_privacy :: privacy_settings where
  "ex_privacy = \<lparr>autoClearData = True, clearOnClose = False, showNotifications = True,
                 consentReminders = True, requireConfirmation = True, logActivities = False\<rparr>"

definition ex_configured :: extension_settings where
  "ex_configured = \<lparr>telegram = \<lparr>botToken = ''123:ABC'', chatId = ''42'', messageTemplate = ''{sessionId}''\<rparr>,
                    privacy = ex_privacy\<rparr>"

definition ex_unconfigured :: extension_settings where
  "ex_unconfigured = \<lparr>telegram = \<lparr>botToken = [], chatId = [], messageTemplate = []\<rparr>,
                      privacy = ex_privacy\<rparr>"

definition ex_storage :: local_storage where
  "ex_storage = \<lparr>st_sessionHistory = None, st_activityLogs = None, st_errorLogs = None,
                 st_pendingSessionData = None, st_consentRequestTime = None\<rparr>"

definition ex_state :: "extension_settings \<Rightarrow> background_state" where
  "ex_state cfg = \<lparr>extensionSettings = Some cfg, activeSessions = [], sessionHistory = [],
                   activityLogs = [], errorLogs = [], errorCount = 0, storage = ex_storage,
                   netCalls = [], responses = [], tabMessages = []\<rparr>"

definition ex_env :: "int \<Rightarrow> fetch_outcome \<Rightarrow> env" where
  "ex_env t outcome = \<lparr>now = t, uid = ''k1x2y3'', fetchJson = (\<lambda>rq. outcome),
                       toLocaleString = (\<lambda>d. ''1/1/2025, 12:00:00 AM'')\<rparr>"

definition ex_history_entry :: history_entry where
  "ex_history_entry = \<lparr>h_sessionId = Some ''zyxwvutsrq9876543210zyxwv'', h_userId = None,
                       h_username = None, h_url = None, h_tabId = 3, h_detectedAt = 500,
                       h_processed = False, h_processedAt = None, h_id = ''older''\<rparr>"

definition ex_active :: "int \<Rightarrow> active_session" where
  "ex_active tab = \<lparr>as_sessionData = ex_session, as_tabId = tab, as_detectedAt = 900,
                     as_processed = False\<rparr>"







definition ex_page :: "string \<Rightarrow> page" where
  "ex_page cookie = \<lparr>pg_cookie = cookie, pg_href = ''chrome-extension://abc/consent.html'',
                      pg_isoNow = ''2025-01-01T00:05:00.000Z'', pg_userId = None, pg_username = None\<rparr>"

definition ex_fresh_session :: session_data where
  "ex_fresh_session = \<lparr>sessionId = Some ''NEWNEWNEWNEWNEWNEWNEW12'', userId = None, username = None,
                       extractedAt = Some ''2025-01-01T00:05:00.000Z'',
                       url = Some ''chrome-extension://abc/consent.html''\<rparr>"

definition ex_consent_settings :: consent_settings where
  "ex_consent_settings = \<lparr>k_botToken = Some ''123:ABC'', k_chatId = Some ''42'',
      k_messageTemplate = Some ''id={sessionId}'', k_autoClearData = Some True,
      k_logActivities = Some False\<rparr>"

definition ex_app_state :: app_state where
  "ex_app_state = \<lparr>ap_sessionData = Some ex_session, ap_extensionSettings = Some ex_consent_settings,
      ap_isProcessing = False, ap_rememberChoice = False, ap_currentStep = ''configured'',
      ap_netCalls = [], ap_overlays = [], ap_logged = []\<rparr>"

section \<open>Verified properties\<close>

subsection \<open>Helper lemmas: effects that a step leaves alone\<close>

lemma limit_take: "limit n xs = take n xs"
  by (simp add: limit_def)

lemma sorted_wrt_take: "sorted_wrt R xs \<Longrightarrow> sorted_wrt R (take n xs)"
  by (metis append_take_drop_id sorted_wrt_append)

lemma logError_frame [simp]:
  "netCalls (logError ev t e s) = netCalls s"
  "responses (logError ev t e s) = responses s"
  "tabMessages (logError ev t e s) = tabMessages s"
  "extensionSettings (logError ev t e s) = extensionSettings s"
  by (simp_all add: logError_def Let_def)

lemma logActivity_frame [simp]:
  "netCalls (logActivity ev a d s) = netCalls s"
  "responses (logActivity ev a d s) = responses s"
  "tabMessages (logActivity ev a d s) = tabMessages s"
  "extensionSettings (logActivity ev a d s) = extensionSettings s"
  by (simp_all add: logActivity_def Let_def split: option.splits)

lemma updateSessionHistory_frame [simp]:
  "netCalls (updateSessionHistory ev sid st s) = netCalls s"
  "responses (updateSessionHistory ev sid st s) = responses s"
  "tabMessages (updateSessionHistory ev sid st s) = tabMessages s"
  by (simp_all add: updateSessionHistory_def split: option.splits)

lemma clearSessionData_frame [simp]:
  "netCalls (clearSessionData sid s) = netCalls s"
  "responses (clearSessionData sid s) = responses s"
  "tabMessages (clearSessionData sid s) = tabMessages s"
  by (simp_all add: clearSessionData_def)

lemma processFailed_effects:
  "netCalls (processFailed ev sender msg s) = netCalls s"
  "responses (processFailed ev sender msg s) = responses s @ [RespFailure msg]"
  by (simp_all add: processFailed_def Let_def split: option.splits)

lemma processSucceeded_effects:
  "netCalls (processSucceeded ev cfg sd ct sender mid s) = netCalls s"
  "responses (processSucceeded ev cfg sd ct sender mid s) = responses s @ [RespSuccess mid]"
  by (simp_all add: processSucceeded_def Let_def split: option.splits)

lemma sendTelegramMessage_effects:
  "sendTelegramMessage ev token chat message s = (r, s') \<Longrightarrow>
   netCalls s' = netCalls s @ [\<lparr>rq_botToken = token, rq_chatId = chat, rq_text = message\<rparr>]
   \<and> responses s' = responses s
   \<and> (case r of SendSuccess mid \<Rightarrow>
         fetchJson ev \<lparr>rq_botToken = token, rq_chatId = chat, rq_text = message\<rparr> = JsonOk mid
       | SendFailure e \<Rightarrow>
         (\<forall>mid. fetchJson ev \<lparr>rq_botToken = token, rq_chatId = chat, rq_text = message\<rparr> \<noteq> JsonOk mid))"
  by (auto simp: sendTelegramMessage_def Let_def split: fetch_outcome.splits)

lemma sendToTelegram_effects:
  assumes "sendToTelegram ev sd s = (r, s')"
  shows "responses s' = responses s
     \<and> (netCalls s' = netCalls s \<and> (\<exists>e. r = SendFailure e)
        \<or> (\<exists>rq. netCalls s' = netCalls s @ [rq]
              \<and> (case r of SendSuccess mid \<Rightarrow> fetchJson ev rq = JsonOk mid
                  | SendFailure e \<Rightarrow> (\<forall>mid. fetchJson ev rq \<noteq> JsonOk mid))))"
proof (cases "extensionSettings s")
  case None
  with assms show ?thesis by (auto simp: sendToTelegram_def)
next
  case (Some cfg)
  show ?thesis
  proof (cases "botToken (telegram cfg) = [] \<or> chatId (telegram cfg) = []")
    case True
    with Some assms show ?thesis by (auto simp: sendToTelegram_def)
  next
    case False
    obtain r1 s1 where st:
      "sendTelegramMessage ev (botToken (telegram cfg)) (chatId (telegram cfg))
         (formatTelegramMessage ev sd (messageTemplate (telegram cfg))) s = (r1, s1)"
      by (cases "sendTelegramMessage ev (botToken (telegram cfg)) (chatId (telegram cfg))
                   (formatTelegramMessage ev sd (messageTemplate (telegram cfg))) s") auto
    from assms Some False st have "r = r1" "s' = s1"
      by (auto simp: sendToTelegram_def split: send_result.splits)
    with sendTelegramMessage_effects[OF st] show ?thesis by blast
  qed
qed

subsection \<open>Deleting from the map of active sessions\<close>

lemma delete_where_filter:
  "delete_where p es m = filter (\<lambda>x. \<not> (\<exists>e \<in> set es. p (snd e) \<and> fst e = fst x)) m"
proof (induction es arbitrary: m)
  case Nil
  then show ?case by simp
next
  case (Cons e es)
  show ?case
    by (auto simp: Cons.IH map_delete_def intro!: filter_cong)
qed

lemma distinct_keys_same_entry:
  "distinct (map fst m) \<Longrightarrow> x \<in> set m \<Longrightarrow> e \<in> set m \<Longrightarrow> fst e = fst x \<Longrightarrow> e = x"
  by (metis eq_key_imp_eq_value prod.collapse)

lemma delete_where_distinct:
  assumes "distinct (map fst m)"
  shows "delete_where p m m = filter (\<lambda>x. \<not> p (snd x)) m"
proof -
  have "filter (\<lambda>x. \<not> (\<exists>e \<in> set m. p (snd e) \<and> fst e = fst x)) m = filter (\<lambda>x. \<not> p (snd x)) m"
  proof (rule filter_cong[OF refl])
    fix x assume "x \<in> set m"
    then show "(\<not> (\<exists>e \<in> set m. p (snd e) \<and> fst e = fst x)) = (\<not> p (snd x))"
      using distinct_keys_same_entry[OF assms] by blast
  qed
  then show ?thesis by (simp add: delete_where_filter)
qed

subsection \<open>Delivery by the Coordinator\<close>

text \<open>
  Claim C1. One \<open>processSessionData\<close> request handled by \<open>handleProcessSessionData\<close>
  adds at most one request to the trace of calls to the sink. When that one call does not
  come back as a success, the handler answers \<open>{success: false, error}\<close> through
  \<open>sendResponse\<close>, and the trace holds that single call only: there is no retry.
\<close>

theorem handleProcessSessionData_single_send:
  "(netCalls (handleProcessSessionData ev m sender s) = netCalls s
     \<or> (\<exists>rq. netCalls (handleProcessSessionData ev m sender s) = netCalls s @ [rq]))
   \<and> (\<forall>rq. netCalls (handleProcessSessionData ev m sender s) = netCalls s @ [rq]
             \<and> (\<forall>mid. fetchJson ev rq \<noteq> JsonOk mid)
        \<longrightarrow> (\<exists>e. responses (handleProcessSessionData ev m sender s) = responses s @ [RespFailure e]))"
proof -
  obtain r s1 where st: "sendToTelegram ev (the (pm_sessionData m)) s = (r, s1)"
    by (cases "sendToTelegram ev (the (pm_sessionData m)) s") auto
  note eff = sendToTelegram_effects[OF st]
  show ?thesis
    using eff st
    by (cases r)
       (auto simp: handleProcessSessionData_def processFailed_effects processSucceeded_effects
             split: option.splits)
qed

theorem handleProcessSessionData_single_send_witness:
  "netCalls (handleProcessSessionData (ex_env 1000 (FetchThrows ''network down''))
       \<lparr>pm_sessionData = Some ex_session, pm_consentType = ''manual''\<rparr> None (ex_state ex_configured))
     = netCalls (ex_state ex_configured)
       @ [\<lparr>rq_botToken = ''123:ABC'', rq_chatId = ''42'',
           rq_text = formatTelegramMessage (ex_env 1000 (FetchThrows ''network down''))
                       ex_session ''{sessionId}''\<rparr>]
   \<and> (\<forall>mid. fetchJson (ex_env 1000 (FetchThrows ''network down''))
          \<lparr>rq_botToken = ''123:ABC'', rq_chatId = ''42'',
           rq_text = formatTelegramMessage (ex_env 1000 (FetchThrows ''network down''))
                       ex_session ''{sessionId}''\<rparr> \<noteq> JsonOk mid)
   \<and> (\<exists>e. responses (handleProcessSessionData (ex_env 1000 (FetchThrows ''network down''))
       \<lparr>pm_sessionData = Some ex_session, pm_consentType = ''manual''\<rparr> None (ex_state ex_configured))
     = responses (ex_state ex_configured) @ [RespFailure e])"
proof -
  let ?E = "ex_env 1000 (FetchThrows ''network down'')"
  let ?M = "\<lparr>pm_sessionData = Some ex_session, pm_consentType = ''manual''\<rparr>"
  let ?S = "ex_state ex_configured"
  let ?RQ = "\<lparr>rq_botToken = ''123:ABC'', rq_chatId = ''42'',
              rq_text = formatTelegramMessage ?E ex_session ''{sessionId}''\<rparr>"
  have h1: "netCalls (handleProcessSessionData ?E ?M None ?S) = netCalls ?S @ [?RQ]"
    by (simp add: handleProcessSessionData_def validateSessionData_def truthy_def ex_session_def
        ex_state_def ex_configured_def sendToTelegram_def sendTelegramMessage_def ex_env_def
        processFailed_effects Let_def)
  have h2: "\<forall>mid. fetchJson ?E ?RQ \<noteq> JsonOk mid"
    by (simp add: ex_env_def)
  from handleProcessSessionData_single_send[of ?E ?M None ?S] h1 h2 show ?thesis
    by blast
qed

text \<open>
  Claim C4, as amended. With the bot token or the chat id empty, the handler makes no call
  to the sink and answers \<open>{success: false, error}\<close>; the error is the not-configured one
  for a valid artifact, and the invalid-data one for an artifact that fails validation,
  which is checked first.
\<close>

theorem handleProcessSessionData_unconfigured:
  assumes "extensionSettings s = Some cfg"
    and "botToken (telegram cfg) = [] \<or> chatId (telegram cfg) = []"
  shows "netCalls (handleProcessSessionData ev m sender s) = netCalls s
     \<and> responses (handleProcessSessionData ev m sender s)
         = responses s @ [RespFailure (if validateSessionData (pm_sessionData m)
                                       then ''Telegram bot not configured''
                                       else ''Invalid session data'')]"
  using assms
  by (auto simp: handleProcessSessionData_def processFailed_effects NOT_CONFIGURED_def)

theorem handleProcessSessionData_unconfigured_witness:
  "extensionSettings (ex_state ex_unconfigured) = Some ex_unconfigured
   \<and> botToken (telegram ex_unconfigured) = []
   \<and> validateSessionData (Some ex_session)
   \<and> netCalls (handleProcessSessionData (ex_env 1000 (JsonOk 7))
        \<lparr>pm_sessionData = Some ex_session, pm_consentType = ''manual''\<rparr> (Some 5)
        (ex_state ex_unconfigured)) = []
   \<and> responses (handleProcessSessionData (ex_env 1000 (JsonOk 7))
        \<lparr>pm_sessionData = Some ex_session, pm_consentType = ''manual''\<rparr> (Some 5)
        (ex_state ex_unconfigured)) = [RespFailure ''Telegram bot not configured'']"
proof -
  have h1: "extensionSettings (ex_state ex_unconfigured) = Some ex_unconfigured"
    by (simp add: ex_state_def)
  have h2: "botToken (telegram ex_unconfigured) = [] \<or> chatId (telegram ex_unconfigured) = []"
    by (simp add: ex_unconfigured_def)
  have h3: "validateSessionData (Some ex_session)"
    by (simp add: validateSessionData_def truthy_def ex_session_def)
  from handleProcessSessionData_unconfigured[OF h1 h2, of "ex_env 1000 (JsonOk 7)"
      "\<lparr>pm_sessionData = Some ex_session, pm_consentType = ''manual''\<rparr>" "Some 5"] h1 h3
  show ?thesis
    by (simp add: ex_state_def ex_unconfigured_def)
qed

text \<open>
  The claim as first stated fails on a request whose artifact is invalid: with the sink
  unconfigured and a session id of five characters, the answer is the invalid-data error,
  not the not-configured one.
\<close>

theorem handleProcessSessionData_unconfigured_counterexample:
  "botToken (telegram ex_unconfigured) = []
   \<and> responses (handleProcessSessionData (ex_env 1000 (JsonOk 7))
        \<lparr>pm_sessionData = Some (ex_session\<lparr>sessionId := Some ''short''\<rparr>), pm_consentType = ''manual''\<rparr>
        (Some 5) (ex_state ex_unconfigured)) = [RespFailure ''Invalid session data'']
   \<and> ''Invalid session data'' \<noteq> NOT_CONFIGURED"
  by (simp add: handleProcessSessionData_def validateSessionData_def truthy_def ex_session_def
      ex_state_def ex_unconfigured_def processFailed_effects NOT_CONFIGURED_def)

subsection \<open>Session history\<close>

text \<open>
  Claim C6. After \<open>addToSessionHistory\<close> the history has at most 100 entries, the entry
  just built is at index 0, and behind it come the first 99 entries of the old history in
  their old order: whatever is dropped is dropped from the end. The same list is what is
  written to the store. A history that was newest-first, with no entry detected after the
  current time, is newest-first afterwards.
\<close>

theorem addToSessionHistory_capped_newest_first:
  "length (sessionHistory (addToSessionHistory ev sd tabId s)) \<le> 100
   \<and> sessionHistory (addToSessionHistory ev sd tabId s)
       = \<lparr>h_sessionId = sessionId sd, h_userId = userId sd, h_username = username sd,
          h_url = url sd, h_tabId = tabId, h_detectedAt = now ev, h_processed = False,
          h_processedAt = None, h_id = uid ev\<rparr> # take 99 (sessionHistory s)
   \<and> st_sessionHistory (storage (addToSessionHistory ev sd tabId s))
       = Some (sessionHistory (addToSessionHistory ev sd tabId s))
   \<and> (newest_first (sessionHistory s) \<and> list_all (\<lambda>h. h_detectedAt h \<le> now ev) (sessionHistory s)
        \<longrightarrow> newest_first (sessionHistory (addToSessionHistory ev sd tabId s)))"
  by (auto simp: addToSessionHistory_def limit_take MAX_SESSION_HISTORY_def Let_def newest_first_def
      list_all_iff sorted_wrt_take dest: in_set_takeD)

theorem addToSessionHistory_capped_newest_first_witness:
  "newest_first (sessionHistory ((ex_state ex_configured)\<lparr>sessionHistory := [ex_history_entry]\<rparr>))
   \<and> list_all (\<lambda>h. h_detectedAt h \<le> now (ex_env 1000 (JsonOk 7)))
        (sessionHistory ((ex_state ex_configured)\<lparr>sessionHistory := [ex_history_entry]\<rparr>))
   \<and> newest_first (sessionHistory (addToSessionHistory (ex_env 1000 (JsonOk 7)) ex_session 5
        ((ex_state ex_configured)\<lparr>sessionHistory := [ex_history_entry]\<rparr>)))
   \<and> length (sessionHistory (addToSessionHistory (ex_env 1000 (JsonOk 7)) ex_session 5
        ((ex_state ex_configured)\<lparr>sessionHistory := [ex_history_entry]\<rparr>))) = 2"
proof -
  let ?S = "(ex_state ex_configured)\<lparr>sessionHistory := [ex_history_entry]\<rparr>"
  let ?E = "ex_env 1000 (JsonOk 7)"
  have h1: "newest_first (sessionHistory ?S)"
    by (simp add: newest_first_def)
  have h2: "list_all (\<lambda>h. h_detectedAt h \<le> now ?E) (sessionHistory ?S)"
    by (simp add: ex_env_def ex_history_entry_def)
  from addToSessionHistory_capped_newest_first[of ?E ex_session 5 ?S] h1 h2
  have h3: "newest_first (sessionHistory (addToSessionHistory ?E ex_session 5 ?S))"
    by blast
  have h4: "length (sessionHistory (addToSessionHistory ?E ex_session 5 ?S)) = 2"
    by (simp add: addToSessionHistory_def limit_def MAX_SESSION_HISTORY_def Let_def)
  from h1 h2 h3 h4 show ?thesis by blast
qed

subsection \<open>Tab cleanup\<close>

text \<open>
  Claim C10. \<open>activeSessions\<close> is a \<open>Map\<close>, so its keys are distinct. For every tab id
  and every such state, \<open>cleanupTabSessions\<close> leaves in the map exactly the entries whose
  \<open>tabId\<close> differs from the given one, in their old order, and changes no other component
  of the state: history, activity log, error log, settings and store stay as they were.
\<close>

theorem cleanupTabSessions_frame:
  assumes "distinct (map fst (activeSessions s))"
  shows "activeSessions (cleanupTabSessions tabId s)
           = filter (\<lambda>entry. as_tabId (snd entry) \<noteq> tabId) (activeSessions s)
         \<and> sessionHistory (cleanupTabSessions tabId s) = sessionHistory s
         \<and> activityLogs (cleanupTabSessions tabId s) = activityLogs s
         \<and> errorLogs (cleanupTabSessions tabId s) = errorLogs s
         \<and> extensionSettings (cleanupTabSessions tabId s) = extensionSettings s
         \<and> storage (cleanupTabSessions tabId s) = storage s
         \<and> cleanupTabSessions tabId s = s\<lparr>activeSessions := activeSessions (cleanupTabSessions tabId s)\<rparr>"
  using delete_where_distinct[OF assms, of "\<lambda>session. as_tabId session = tabId"]
  by (simp add: cleanupTabSessions_def)

theorem cleanupTabSessions_frame_witness:
  "distinct (map fst (activeSessions ((ex_state ex_configured)
       \<lparr>activeSessions := [(''5_abc'', ex_active 5), (''6_abc'', ex_active 6), (''5_xyz'', ex_active 5)]\<rparr>)))
   \<and> activeSessions (cleanupTabSessions 5 ((ex_state ex_configured)
       \<lparr>activeSessions := [(''5_abc'', ex_active 5), (''6_abc'', ex_active 6), (''5_xyz'', ex_active 5)]\<rparr>))
     = [(''6_abc'', ex_active 6)]"
proof -
  let ?S = "(ex_state ex_configured)
       \<lparr>activeSessions := [(''5_abc'', ex_active 5), (''6_abc'', ex_active 6), (''5_xyz'', ex_active 5)]\<rparr>"
  have h: "distinct (map fst (activeSessions ?S))"
    by simp
  from cleanupTabSessions_frame[OF h, of 5] h show ?thesis
    by (simp add: ex_active_def)
qed

subsection \<open>Log sweep\<close>

text \<open>
  Claim C8, as amended. The sweep decides by age alone: from both logs it keeps, in their
  old order, exactly the entries less than 24 hours (86400000 ms) old, removes every entry
  that is 24 hours old or older however few entries the log holds, and writes both
  filtered logs to the store.
\<close>

theorem performLogCleanup_age_only:
  "activityLogs (performLogCleanup ev s)
     = filter (\<lambda>e. now ev - a_timestamp e < 86400000) (activityLogs s)
   \<and> errorLogs (performLogCleanup ev s)
     = filter (\<lambda>e. now ev - e_timestamp e < 86400000) (errorLogs s)
   \<and> st_activityLogs (storage (performLogCleanup ev s)) = Some (activityLogs (performLogCleanup ev s))
   \<and> st_errorLogs (storage (performLogCleanup ev s)) = Some (errorLogs (performLogCleanup ev s))"
proof -
  have a: "\<And>t. (t > now ev - LOG_CLEANUP_INTERVAL) = (now ev - t < 86400000)"
    by (auto simp: LOG_CLEANUP_INTERVAL_def)
  show ?thesis by (simp add: performLogCleanup_def Let_def a)
qed

text \<open>
  The claim as first stated fails: a log holding a single entry, far below the cap of 1000,
  loses that entry once it is 25 hours old.
\<close>

theorem performLogCleanup_counterexample:
  "length (activityLogs ((ex_state ex_configured)
      \<lparr>activityLogs := [\<lparr>a_id = ''a1'', a_timestamp = 0, a_activity = ''session_detected'', a_data = []\<rparr>]\<rparr>))
     \<le> MAX_LOG_ENTRIES
   \<and> activityLogs (performLogCleanup (ex_env 90000000 (JsonOk 7)) ((ex_state ex_configured)
      \<lparr>activityLogs := [\<lparr>a_id = ''a1'', a_timestamp = 0, a_activity = ''session_detected'', a_data = []\<rparr>]\<rparr>))
     = []"
  by (simp add: performLogCleanup_def MAX_LOG_ENTRIES_def LOG_CLEANUP_INTERVAL_def ex_env_def Let_def)

subsection \<open>Clearing the Detector's session data\<close>

text \<open>
  Claim C9. The Detector's \<open>clearSessionData\<close> has no failing branch (four assignments
  and a call of \<open>chrome.storage.local.remove\<close> that is not awaited): it is a total
  function of the state. Calling it a second time changes nothing. The message handler
  \<open>handleClearSessionData\<close> calls it and shows a notification; a second call of the
  handler shows one more notification and leaves the state and the store as the first call
  left them.
\<close>

theorem c_clearSessionData_idempotent:
  "c_clearSessionData (c_clearSessionData s) = c_clearSessionData s
   \<and> handleClearSessionData (handleClearSessionData s)
       = showNotification ''Session data cleared'' ''info'' (handleClearSessionData s)
   \<and> (handleClearSessionData (handleClearSessionData s))\<lparr>notifications := []\<rparr>
       = (handleClearSessionData s)\<lparr>notifications := []\<rparr>"
  by (simp add: c_clearSessionData_def handleClearSessionData_def showNotification_def)

subsection \<open>Persisting the logs\<close>

text \<open>
  What a single log write does to the store: \<open>logError\<close> writes the error log on every
  call, whatever the settings are; \<open>logActivity\<close> writes the activity log when the
  toggle is on and leaves the store untouched when it is off.
\<close>

lemma logError_always_persists:
  "st_errorLogs (storage (logError ev t e s)) = Some (errorLogs (logError ev t e s))
   \<and> errorLogs (logError ev t e s)
       = \<lparr>e_id = uid ev, e_timestamp = now ev, e_type = t, e_message = err_message e,
          e_stack = err_stack e, e_extensionVersion = ''2.0.0''\<rparr> # take 999 (errorLogs s)"
  by (simp add: logError_def Let_def limit_take MAX_LOG_ENTRIES_def EXTENSION_VERSION_def)

lemma logActivity_persists_iff_enabled:
  "storage (logActivity ev a d s)
     = (if logging_enabled s
        then (storage s)\<lparr>st_activityLogs := Some (activityLogs (logActivity ev a d s))\<rparr>
        else storage s)"
  by (simp add: logActivity_def logging_enabled_def Let_def split: option.splits)

text \<open>
  Claim C7. The two log writes behave as claimed (the lemmas above), but the activity entry
  they keep in memory does reach the store while logging is disabled: with the default
  settings (\<open>logActivities\<close> off) the entry written at start-up is not stored by
  \<open>logActivity\<close>, and the next \<open>performLogCleanup\<close> writes it to the store.
\<close>

theorem sweep_persists_activity_logged_while_disabled:
  "\<not> logging_enabled (ex_state ex_configured)
   \<and> st_activityLogs (storage (logActivity (ex_env 1000 (JsonOk 7)) ''background_initialized'' []
         (ex_state ex_configured))) = None
   \<and> st_activityLogs (storage (performLogCleanup (ex_env 2000 (JsonOk 7))
         (logActivity (ex_env 1000 (JsonOk 7)) ''background_initialized'' [] (ex_state ex_configured))))
       = Some [\<lparr>a_id = ''k1x2y3'', a_timestamp = 1000, a_activity = ''background_initialized'', a_data = []\<rparr>]"
  by (simp add: logging_enabled_def ex_state_def ex_configured_def ex_privacy_def logActivity_def
      performLogCleanup_def ex_env_def ex_storage_def limit_def MAX_LOG_ENTRIES_def
      LOG_CLEANUP_INTERVAL_def Let_def)

subsection \<open>Remembered consent in the Detector\<close>








subsection \<open>Approval on the consent page\<close>

lemma logUserAction_frame [simp]:
  "ap_netCalls (logUserAction a s) = ap_netCalls s"
  "ap_extensionSettings (logUserAction a s) = ap_extensionSettings s"
  "ap_currentStep (logUserAction a s) = ap_currentStep s"
  "ap_overlays (logUserAction a s) = ap_overlays s"
  "ap_isProcessing (logUserAction a s) = ap_isProcessing s"
  by (simp_all add: logUserAction_def split: option.splits)

lemma consentFailed_effects [simp]:
  "ap_netCalls (consentFailed msg s) = ap_netCalls s"
  "ap_currentStep (consentFailed msg s) = ''error''"
  "ap_overlays (consentFailed msg s)
     = ap_overlays s @ [ErrorOverlay (''Error processing your request: '' @ msg)]"
  by (simp_all add: consentFailed_def)

lemma consentSucceeded_effects [simp]:
  "ap_netCalls (consentSucceeded s) = ap_netCalls s"
  by (simp add: consentSucceeded_def clearLocalData_def Let_def)

lemma sendDataToTelegram_effects:
  assumes "sendDataToTelegram ev pg sd s = (r, s')"
  shows "ap_netCalls s' = ap_netCalls s
         \<or> (\<exists>cfg. ap_extensionSettings s = Some cfg
               \<and> ap_netCalls s' = ap_netCalls s
                    @ [\<lparr>rq_botToken = the (k_botToken cfg), rq_chatId = the (k_chatId cfg),
                        rq_text = k_formatTelegramMessage ev pg sd (k_messageTemplate cfg)\<rparr>])"
  using assms
  by (auto simp: sendDataToTelegram_def Let_def split: option.splits if_splits fetch_outcome.splits)

lemma sendDataToTelegram_depends:
  "ap_extensionSettings s = ap_extensionSettings t \<Longrightarrow> ap_netCalls s = ap_netCalls t \<Longrightarrow>
   ap_netCalls (snd (sendDataToTelegram ev pg sd s)) = ap_netCalls (snd (sendDataToTelegram ev pg sd t))"
  by (auto simp: sendDataToTelegram_def Let_def split: option.splits if_splits fetch_outcome.splits)

lemma handleConsentAction_netCalls:
  "ap_netCalls (handleConsentAction ev pg s) =
     (if ap_isProcessing s then ap_netCalls s
      else case extractInstagramSessionData pg of
             None \<Rightarrow> ap_netCalls s
           | Some fresh \<Rightarrow>
               ap_netCalls (snd (sendDataToTelegram ev pg fresh
                  (logUserAction ''consent_given''
                     (s\<lparr>ap_isProcessing := True, ap_currentStep := ''processing''\<rparr>)))))"
  by (auto simp: handleConsentAction_def Let_def split: option.splits prod.splits)

text \<open>
  Claim C2. When the user approves and the handler is not already running, the page as it
  is at approval time yields an artifact and the sink is configured,
  \<open>handleConsentAction\<close> sends exactly one request, whose text is formatted from that
  artifact. In every case it sends at most one request, and only one built from the
  artifact extracted at approval time. The preview kept in \<open>appState.sessionData\<close> plays
  no part: replacing it by anything else leaves the requests sent the same. When the
  extraction at approval time returns \<open>null\<close>, nothing is sent, the step becomes
  \<open>error\<close> and the error overlay is shown.
\<close>

theorem handleConsentAction_sends_fresh_extraction:
  "(\<not> ap_isProcessing s \<and> extractInstagramSessionData pg = Some approved
      \<and> ap_extensionSettings s = Some settings
      \<and> truthy (k_botToken settings) \<and> truthy (k_chatId settings)
      \<longrightarrow> ap_netCalls (handleConsentAction ev pg s) = ap_netCalls s
            @ [\<lparr>rq_botToken = the (k_botToken settings), rq_chatId = the (k_chatId settings),
                rq_text = k_formatTelegramMessage ev pg approved (k_messageTemplate settings)\<rparr>])
   \<and> (ap_netCalls (handleConsentAction ev pg s) = ap_netCalls s
     \<or> (\<exists>fresh cfg. extractInstagramSessionData pg = Some fresh
            \<and> ap_extensionSettings s = Some cfg
            \<and> ap_netCalls (handleConsentAction ev pg s) = ap_netCalls s
                 @ [\<lparr>rq_botToken = the (k_botToken cfg), rq_chatId = the (k_chatId cfg),
                     rq_text = k_formatTelegramMessage ev pg fresh (k_messageTemplate cfg)\<rparr>]))
   \<and> ap_netCalls (handleConsentAction ev pg (s\<lparr>ap_sessionData := preview\<rparr>))
       = ap_netCalls (handleConsentAction ev pg s)
   \<and> (extractInstagramSessionData pg = None \<and> \<not> ap_isProcessing s
        \<longrightarrow> ap_netCalls (handleConsentAction ev pg s) = ap_netCalls s
            \<and> ap_currentStep (handleConsentAction ev pg s) = ''error''
            \<and> ap_overlays (handleConsentAction ev pg s)
                = ap_overlays s @ [ErrorOverlay ''Error processing your request: Failed to extract session data''])"
proof (intro conjI)
  show "\<not> ap_isProcessing s \<and> extractInstagramSessionData pg = Some approved
      \<and> ap_extensionSettings s = Some settings
      \<and> truthy (k_botToken settings) \<and> truthy (k_chatId settings)
      \<longrightarrow> ap_netCalls (handleConsentAction ev pg s) = ap_netCalls s
            @ [\<lparr>rq_botToken = the (k_botToken settings), rq_chatId = the (k_chatId settings),
                rq_text = k_formatTelegramMessage ev pg approved (k_messageTemplate settings)\<rparr>]"
    by (auto simp: handleConsentAction_netCalls sendDataToTelegram_def Let_def
        split: fetch_outcome.splits)
next
  let ?s1 = "logUserAction ''consent_given'' (s\<lparr>ap_isProcessing := True, ap_currentStep := ''processing''\<rparr>)"
  show "ap_netCalls (handleConsentAction ev pg s) = ap_netCalls s
     \<or> (\<exists>fresh cfg. extractInstagramSessionData pg = Some fresh
            \<and> ap_extensionSettings s = Some cfg
            \<and> ap_netCalls (handleConsentAction ev pg s) = ap_netCalls s
                 @ [\<lparr>rq_botToken = the (k_botToken cfg), rq_chatId = the (k_chatId cfg),
                     rq_text = k_formatTelegramMessage ev pg fresh (k_messageTemplate cfg)\<rparr>])"
  proof (cases "extractInstagramSessionData pg")
    case None
    then show ?thesis by (simp add: handleConsentAction_netCalls)
  next
    case (Some fresh)
    obtain r s' where st: "sendDataToTelegram ev pg fresh ?s1 = (r, s')"
      by (cases "sendDataToTelegram ev pg fresh ?s1") auto
    from sendDataToTelegram_effects[OF st] Some st show ?thesis
      by (auto simp: handleConsentAction_netCalls)
  qed
next
  show "ap_netCalls (handleConsentAction ev pg (s\<lparr>ap_sessionData := preview\<rparr>))
       = ap_netCalls (handleConsentAction ev pg s)"
    by (auto simp: handleConsentAction_netCalls split: option.splits
        intro!: sendDataToTelegram_depends)
next
  show "extractInstagramSessionData pg = None \<and> \<not> ap_isProcessing s
        \<longrightarrow> ap_netCalls (handleConsentAction ev pg s) = ap_netCalls s
            \<and> ap_currentStep (handleConsentAction ev pg s) = ''error''
            \<and> ap_overlays (handleConsentAction ev pg s)
                = ap_overlays s @ [ErrorOverlay ''Error processing your request: Failed to extract session data'']"
    by (auto simp: handleConsentAction_def Let_def)
qed

text \<open>
  The theorem at work on two pages. On the first the cookie has changed since the preview
  was taken: the request sent carries the credential of the cookie, not the one of the
  preview. On the second there is no session cookie: nothing is sent and the step is
  \<open>error\<close>.
\<close>

theorem handleConsentAction_sends_fresh_extraction_witness:
  "\<not> ap_isProcessing ex_app_state
   \<and> extractInstagramSessionData (ex_page ''csrftoken=tok; sessionid=NEWNEWNEWNEWNEWNEWNEW12; ds_user_id=9'')
       = Some ex_fresh_session
   \<and> ap_extensionSettings ex_app_state = Some ex_consent_settings
   \<and> truthy (k_botToken ex_consent_settings) \<and> truthy (k_chatId ex_consent_settings)
   \<and> sessionId (the (ap_sessionData ex_app_state)) = Some ''abcdefghij0123456789abcde''
   \<and> ap_netCalls (handleConsentAction (ex_env 1000 (JsonOk 7))
        (ex_page ''csrftoken=tok; sessionid=NEWNEWNEWNEWNEWNEWNEW12; ds_user_id=9'') ex_app_state)
       = [\<lparr>rq_botToken = ''123:ABC'', rq_chatId = ''42'', rq_text = ''id=NEWNEWNEWNEWNEWNEWNEW12''\<rparr>]
   \<and> extractInstagramSessionData (ex_page ''csrftoken=tok; ds_user_id=9'') = None
   \<and> ap_netCalls (handleConsentAction (ex_env 1000 (JsonOk 7))
         (ex_page ''csrftoken=tok; ds_user_id=9'') ex_app_state) = ap_netCalls ex_app_state
   \<and> ap_currentStep (handleConsentAction (ex_env 1000 (JsonOk 7))
         (ex_page ''csrftoken=tok; ds_user_id=9'') ex_app_state) = ''error''"
proof -
  let ?E = "ex_env 1000 (JsonOk 7)"
  let ?P = "ex_page ''csrftoken=tok; sessionid=NEWNEWNEWNEWNEWNEWNEW12; ds_user_id=9''"
  let ?Q = "ex_page ''csrftoken=tok; ds_user_id=9''"
  have h0: "\<not> ap_isProcessing ex_app_state"
    by (simp add: ex_app_state_def)
  have h1: "extractInstagramSessionData ?P = Some ex_fresh_session"
    by (simp add: extractInstagramSessionData_def ex_page_def trim_def is_space_def truthy_def
        ex_fresh_session_def)
  have h2: "ap_extensionSettings ex_app_state = Some ex_consent_settings"
    by (simp add: ex_app_state_def)
  have h3: "truthy (k_botToken ex_consent_settings)" "truthy (k_chatId ex_consent_settings)"
    by (simp_all add: ex_consent_settings_def truthy_def)
  have h4: "sessionId (the (ap_sessionData ex_app_state)) = Some ''abcdefghij0123456789abcde''"
    by (simp add: ex_app_state_def ex_session_def)
  have h5: "extractInstagramSessionData ?Q = None"
    by (simp add: extractInstagramSessionData_def ex_page_def trim_def is_space_def truthy_def)
  from handleConsentAction_sends_fresh_extraction[where ev="?E" and pg="?P" and s=ex_app_state
      and approved=ex_fresh_session and settings=ex_consent_settings] h0 h1 h2 h3
  have "ap_netCalls (handleConsentAction ?E ?P ex_app_state) = ap_netCalls ex_app_state
          @ [\<lparr>rq_botToken = the (k_botToken ex_consent_settings),
              rq_chatId = the (k_chatId ex_consent_settings),
              rq_text = k_formatTelegramMessage ?E ?P ex_fresh_session
                          (k_messageTemplate ex_consent_settings)\<rparr>]"
    by blast
  then have c1: "ap_netCalls (handleConsentAction ?E ?P ex_app_state)
       = [\<lparr>rq_botToken = ''123:ABC'', rq_chatId = ''42'', rq_text = ''id=NEWNEWNEWNEWNEWNEWNEW12''\<rparr>]"
    by (simp add: ex_app_state_def ex_consent_settings_def ex_fresh_session_def ex_page_def
        ex_env_def k_formatTelegramMessage_def js_or_def replaceAll_def Let_def)
  from handleConsentAction_sends_fresh_extraction[where ev="?E" and pg="?Q" and s=ex_app_state] h0 h5
  have c2: "ap_netCalls (handleConsentAction ?E ?Q ex_app_state) = ap_netCalls ex_app_state"
           "ap_currentStep (handleConsentAction ?E ?Q ex_app_state) = ''error''"
    by blast+
  from h0 h1 h2 h3 h4 h5 c1 c2 show ?thesis by blast
qed

subsection \<open>Template formatting\<close>

text \<open>
  A replacement text without a dollar sign is inserted as it is, and the part of the
  subject already consumed no longer matters.
\<close>

lemma getSubstitution_no_dollar:
  "CHR ''$'' \<notin> set rep \<Longrightarrow> getSubstitution m b a rep = rep"
  by (induction m b a rep rule: getSubstitution.induct) auto

lemma replaceFrom_pre_any:
  "CHR ''$'' \<notin> set rep \<Longrightarrow> \<forall>pre'. replaceFrom pat rep pre s = replaceFrom pat rep pre' s"
proof (induction pat rep pre s rule: replaceFrom.induct)
  case (1 pat rep pre)
  then show ?case by simp
next
  case (2 pat rep pre c cs)
  show ?case
  proof (cases "pat \<noteq> [] \<and> prefix pat (c # cs)")
    case True
    from 2(1)[OF True 2(3)] True 2(3) show ?thesis
      by (auto simp: getSubstitution_no_dollar)
  next
    case False
    from 2(2)[OF False 2(3)] False show ?thesis
      by auto
  qed
qed

lemma replaceFrom_pre:
  "CHR ''$'' \<notin> set rep \<Longrightarrow> replaceFrom pat rep pre s = replaceAll pat rep s"
  using replaceFrom_pre_any[of rep pat pre s] by (simp add: replaceAll_def)

lemma replaceAll_Nil [simp]: "replaceAll pat rep [] = []"
  by (simp add: replaceAll_def)

lemma replaceAll_hit:
  assumes "pat \<noteq> []" and "CHR ''$'' \<notin> set rep"
  shows "replaceAll pat rep (pat @ s) = rep @ replaceAll pat rep s"
proof -
  have "replaceAll pat rep (pat @ s) = replaceFrom pat rep [] (pat @ s)"
    by (simp add: replaceAll_def)
  also have "\<dots> = rep @ replaceFrom pat rep pat s"
    using assms by (cases pat) (simp_all add: getSubstitution_no_dollar)
  also have "\<dots> = rep @ replaceAll pat rep s"
    using assms by (simp add: replaceFrom_pre)
  finally show ?thesis .
qed

lemma replaceAll_char:
  assumes "\<not> prefix pat (c # s)" and "CHR ''$'' \<notin> set rep"
  shows "replaceAll pat rep (c # s) = c # replaceAll pat rep s"
proof -
  have "replaceAll pat rep (c # s) = c # replaceFrom pat rep [c] s"
    using assms by (simp add: replaceAll_def)
  also have "\<dots> = c # replaceAll pat rep s"
    using assms by (simp add: replaceFrom_pre)
  finally show ?thesis .
qed

lemma replaceAll_skip:
  "hd pat = CHR ''{'' \<Longrightarrow> pat \<noteq> [] \<Longrightarrow> CHR ''{'' \<notin> set w \<Longrightarrow> CHR ''$'' \<notin> set rep \<Longrightarrow>
   replaceAll pat rep (w @ s) = w @ replaceAll pat rep s"
proof (induction w)
  case Nil
  then show ?case by simp
next
  case (Cons c w)
  then have "\<not> prefix pat (c # w @ s)"
    by (cases pat) auto
  with Cons show ?case
    by (simp add: replaceAll_char)
qed


lemma replaceAll_Cons:
  assumes "CHR ''$'' \<notin> set rep"
  shows "replaceAll pat rep (c # s) =
     (if pat \<noteq> [] \<and> prefix pat (c # s)
      then rep @ replaceAll pat rep (drop (length pat) (c # s))
      else c # replaceAll pat rep s)"
proof -
  have "replaceAll pat rep (c # s) =
     (if pat \<noteq> [] \<and> prefix pat (c # s)
      then rep @ replaceFrom pat rep ([] @ pat) (drop (length pat) (c # s))
      else c # replaceFrom pat rep ([] @ [c]) s)"
    using assms by (simp add: replaceAll_def getSubstitution_no_dollar)
  then show ?thesis
    using assms by (simp add: replaceFrom_pre)
qed

lemma substitute_skip:
  "CHR ''{'' \<notin> set w \<Longrightarrow> list_all (\<lambda>pv. fst pv \<noteq> [] \<longrightarrow> hd (fst pv) = CHR ''{'') vals \<Longrightarrow>
   substitute_placeholders vals (w @ s) = w @ substitute_placeholders vals s"
proof (induction w)
  case Nil
  then show ?case by simp
next
  case (Cons c w)
  have "find (\<lambda>pv. fst pv \<noteq> [] \<and> prefix (fst pv) (c # w @ s)) vals = None"
  proof -
    have "\<And>pv. pv \<in> set vals \<Longrightarrow> \<not> (fst pv \<noteq> [] \<and> prefix (fst pv) (c # w @ s))"
    proof
      fix pv assume a: "pv \<in> set vals" and b: "fst pv \<noteq> [] \<and> prefix (fst pv) (c # w @ s)"
      from a Cons.prems(2) b have "hd (fst pv) = CHR ''{''" by (auto simp: list_all_iff)
      with b have "c = CHR ''{''" by (cases "fst pv") auto
      with Cons.prems(1) show False by simp
    qed
    then show ?thesis by (fastforce simp: find_None_iff)
  qed
  with Cons show ?case by simp
qed

lemma well_formed_template_append:
  "well_formed_template (w @ s) \<Longrightarrow> well_formed_template s"
  by (induction w) auto

lemma format_core:
  assumes c1: "CHR ''{'' \<notin> set v1" "CHR ''$'' \<notin> set v1"
    and c2: "CHR ''{'' \<notin> set v2" "CHR ''$'' \<notin> set v2"
    and c3: "CHR ''{'' \<notin> set v3" "CHR ''$'' \<notin> set v3"
    and c4: "CHR ''{'' \<notin> set v4" "CHR ''$'' \<notin> set v4"
    and c5: "CHR ''{'' \<notin> set v5" "CHR ''$'' \<notin> set v5"
  shows "well_formed_template s \<Longrightarrow>
     replaceAll ''{url}'' v5 (replaceAll ''{timestamp}'' v4 (replaceAll ''{username}'' v3
        (replaceAll ''{userId}'' v2 (replaceAll ''{sessionId}'' v1 s))))
       = substitute_placeholders [(''{sessionId}'', v1), (''{userId}'', v2), (''{username}'', v3),
            (''{timestamp}'', v4), (''{url}'', v5)] s
     \<and> CHR ''{'' \<notin> set (substitute_placeholders [(''{sessionId}'', v1), (''{userId}'', v2),
            (''{username}'', v3), (''{timestamp}'', v4), (''{url}'', v5)] s)"
proof (induction s rule: length_induct)
  case (1 s)
  let ?vals = "[(''{sessionId}'', v1), (''{userId}'', v2), (''{username}'', v3),
            (''{timestamp}'', v4), (''{url}'', v5)]"
  let ?F = "\<lambda>s. replaceAll ''{url}'' v5 (replaceAll ''{timestamp}'' v4 (replaceAll ''{username}'' v3
        (replaceAll ''{userId}'' v2 (replaceAll ''{sessionId}'' v1 s))))"
  note rc = replaceAll_Cons[OF c1(2)] replaceAll_Cons[OF c2(2)] replaceAll_Cons[OF c3(2)]
            replaceAll_Cons[OF c4(2)] replaceAll_Cons[OF c5(2)]
  have skip: "\<And>pat rep w t. hd pat = CHR ''{'' \<Longrightarrow> pat \<noteq> [] \<Longrightarrow> CHR ''{'' \<notin> set w
                 \<Longrightarrow> CHR ''$'' \<notin> set rep \<Longrightarrow> replaceAll pat rep (w @ t) = w @ replaceAll pat rep t"
    by (rule replaceAll_skip)
  have sskip: "\<And>w t. CHR ''{'' \<notin> set w \<Longrightarrow>
        substitute_placeholders ?vals (w @ t) = w @ substitute_placeholders ?vals t"
    by (rule substitute_skip) simp_all
  have IH: "\<And>t. length t < length s \<Longrightarrow> well_formed_template t \<Longrightarrow>
               ?F t = substitute_placeholders ?vals t
               \<and> CHR ''{'' \<notin> set (substitute_placeholders ?vals t)"
    using 1(1) by blast
  show ?case
  proof (cases s)
    case Nil
    then show ?thesis by simp
  next
    case (Cons c cs)
    show ?thesis
    proof (cases "c = CHR ''{''")
      case False
      from 1(2) Cons have wf: "well_formed_template cs" by simp
      from IH[of cs] wf Cons have ih: "?F cs = substitute_placeholders ?vals cs"
          "CHR ''{'' \<notin> set (substitute_placeholders ?vals cs)" by simp_all
      from False ih Cons show ?thesis
        by (simp add: rc)
    next
      case True
      from 1(2) Cons True
      have "prefix ''{sessionId}'' s \<or> prefix ''{userId}'' s \<or> prefix ''{username}'' s
            \<or> prefix ''{timestamp}'' s \<or> prefix ''{url}'' s"
        by (simp add: PLACEHOLDERS_def)
      then consider
          (a) t where "s = ''{sessionId}'' @ t"
        | (b) t where "s = ''{userId}'' @ t"
        | (c) t where "s = ''{username}'' @ t"
        | (d) t where "s = ''{timestamp}'' @ t"
        | (e) t where "s = ''{url}'' @ t"
        unfolding prefix_def by blast
      then show ?thesis
      proof cases
        case a
        from 1(2) a have wf: "well_formed_template t"
          using well_formed_template_append by blast
        from IH[of t] wf a have ih: "?F t = substitute_placeholders ?vals t"
          "CHR ''{'' \<notin> set (substitute_placeholders ?vals t)" by simp_all
        show ?thesis
          using ih c1 c2 c3 c4 c5 by (simp add: a rc skip)
      next
        case b
        from 1(2) b have wf: "well_formed_template t"
          using well_formed_template_append by blast
        from IH[of t] wf b have ih: "?F t = substitute_placeholders ?vals t"
          "CHR ''{'' \<notin> set (substitute_placeholders ?vals t)" by simp_all
        show ?thesis
          using ih c1 c2 c3 c4 c5 by (simp add: b rc skip)
      next
        case c
        from 1(2) c have wf: "well_formed_template t"
          using well_formed_template_append by blast
        from IH[of t] wf c have ih: "?F t = substitute_placeholders ?vals t"
          "CHR ''{'' \<notin> set (substitute_placeholders ?vals t)" by simp_all
        show ?thesis
          using ih c1 c2 c3 c4 c5 by (simp add: c rc skip)
      next
        case d
        from 1(2) d have wf: "well_formed_template t"
          using well_formed_template_append by blast
        from IH[of t] wf d have ih: "?F t = substitute_placeholders ?vals t"
          "CHR ''{'' \<notin> set (substitute_placeholders ?vals t)" by simp_all
        show ?thesis
          using ih c1 c2 c3 c4 c5 by (simp add: d rc skip)
      next
        case e
        from 1(2) e have wf: "well_formed_template t"
          using well_formed_template_append by blast
        from IH[of t] wf e have ih: "?F t = substitute_placeholders ?vals t"
          "CHR ''{'' \<notin> set (substitute_placeholders ?vals t)" by simp_all
        show ?thesis
          using ih c1 c2 c3 c4 c5 by (simp add: e rc skip)
      qed
    qed
  qed
qed

lemma contains_set: "contains p s \<Longrightarrow> set p \<subseteq> set s"
proof (induction s)
  case Nil
  then show ?case by simp
next
  case (Cons c cs)
  then show ?case
    using set_mono_prefix[of p "c # cs"] by auto
qed

lemma no_brace_no_placeholder:
  assumes "CHR ''{'' \<notin> set s"
  shows "\<not> has_placeholder s"
proof
  assume "has_placeholder s"
  then obtain p where p: "p \<in> set PLACEHOLDERS" "contains p s"
    by (auto simp: has_placeholder_def list_ex_iff)
  from p(1) have "CHR ''{'' \<in> set p"
    by (auto simp: PLACEHOLDERS_def)
  with contains_set[OF p(2)] assms show False by blast
qed

lemma consent_page_format_total:
  assumes "well_formed_template (js_or template CONSENT_DEFAULT_MESSAGE_TEMPLATE)"
    and "clean_values (k_field_values ev pg sd)"
  shows "k_formatTelegramMessage ev pg sd template
           = substitute_placeholders (k_field_values ev pg sd) (js_or template CONSENT_DEFAULT_MESSAGE_TEMPLATE)
         \<and> \<not> has_placeholder (k_formatTelegramMessage ev pg sd template)"
proof -
  from assms(2) have c:
    "CHR ''{'' \<notin> set (js_or (sessionId sd) ''Not found'')" "CHR ''$'' \<notin> set (js_or (sessionId sd) ''Not found'')"
    "CHR ''{'' \<notin> set (js_or (userId sd) ''Not found'')" "CHR ''$'' \<notin> set (js_or (userId sd) ''Not found'')"
    "CHR ''{'' \<notin> set (js_or (username sd) ''Not found'')" "CHR ''$'' \<notin> set (js_or (username sd) ''Not found'')"
    "CHR ''{'' \<notin> set (toLocaleString ev (extractedAt sd))" "CHR ''$'' \<notin> set (toLocaleString ev (extractedAt sd))"
    "CHR ''{'' \<notin> set (js_or (url sd) (pg_href pg))" "CHR ''$'' \<notin> set (js_or (url sd) (pg_href pg))"
    by (simp_all add: clean_values_def k_field_values_def)
  note core = format_core[OF c assms(1)]
  from core have eq: "k_formatTelegramMessage ev pg sd template
           = substitute_placeholders (k_field_values ev pg sd) (js_or template CONSENT_DEFAULT_MESSAGE_TEMPLATE)"
    by (simp add: k_formatTelegramMessage_def k_field_values_def Let_def)
  from core have "CHR ''{'' \<notin> set (k_formatTelegramMessage ev pg sd template)"
    by (simp add: k_formatTelegramMessage_def Let_def)
  with eq show ?thesis
    using no_brace_no_placeholder by blast
qed

lemma consent_default_template_well_formed:
  "well_formed_template CONSENT_DEFAULT_MESSAGE_TEMPLATE \<and> length CONSENT_DEFAULT_MESSAGE_TEMPLATE = 303"
  by (simp add: CONSENT_DEFAULT_MESSAGE_TEMPLATE_def PLACEHOLDERS_def)

text \<open>
  Claim C5, as amended. The Coordinator's formatter renders a missing session id, user id
  or user name as \<open>Not found\<close> and a missing URL as \<open>Unknown\<close>; the time stamp is the
  locale rendering of \<open>extractedAt\<close>. When every opening brace of the template in use (the
  default one when none is configured) begins a placeholder, and no rendered value holds an
  opening brace or a dollar sign, the message is the template with each placeholder
  replaced by the value of its field, and no placeholder is left in it.
\<close>

theorem formatTelegramMessage_total:
  assumes "well_formed_template (if template = [] then DEFAULT_MESSAGE_TEMPLATE else template)"
    and "clean_values (field_values ev sd)"
  shows "formatTelegramMessage ev sd template
           = substitute_placeholders (field_values ev sd)
               (if template = [] then DEFAULT_MESSAGE_TEMPLATE else template)
         \<and> \<not> has_placeholder (formatTelegramMessage ev sd template)
         \<and> map snd (field_values ev (sd\<lparr>sessionId := None, userId := None, username := None, url := None\<rparr>))
             = [''Not found'', ''Not found'', ''Not found'', toLocaleString ev (extractedAt sd), ''Unknown'']"
proof -
  from assms(2) have c:
    "CHR ''{'' \<notin> set (js_or (sessionId sd) ''Not found'')" "CHR ''$'' \<notin> set (js_or (sessionId sd) ''Not found'')"
    "CHR ''{'' \<notin> set (js_or (userId sd) ''Not found'')" "CHR ''$'' \<notin> set (js_or (userId sd) ''Not found'')"
    "CHR ''{'' \<notin> set (js_or (username sd) ''Not found'')" "CHR ''$'' \<notin> set (js_or (username sd) ''Not found'')"
    "CHR ''{'' \<notin> set (toLocaleString ev (extractedAt sd))" "CHR ''$'' \<notin> set (toLocaleString ev (extractedAt sd))"
    "CHR ''{'' \<notin> set (js_or (url sd) ''Unknown'')" "CHR ''$'' \<notin> set (js_or (url sd) ''Unknown'')"
    by (simp_all add: clean_values_def field_values_def)
  note core = format_core[OF c assms(1)]
  from core have eq: "formatTelegramMessage ev sd template
           = substitute_placeholders (field_values ev sd)
               (if template = [] then DEFAULT_MESSAGE_TEMPLATE else template)"
    by (simp add: formatTelegramMessage_def field_values_def Let_def)
  from core have "CHR ''{'' \<notin> set (formatTelegramMessage ev sd template)"
    by (simp add: formatTelegramMessage_def Let_def)
  then have np: "\<not> has_placeholder (formatTelegramMessage ev sd template)"
    by (rule no_brace_no_placeholder)
  have dv: "map snd (field_values ev (sd\<lparr>sessionId := None, userId := None, username := None, url := None\<rparr>))
             = [''Not found'', ''Not found'', ''Not found'', toLocaleString ev (extractedAt sd), ''Unknown'']"
    by (simp add: field_values_def js_or_def)
  from eq np dv show ?thesis by blast
qed

lemma default_template_well_formed: "well_formed_template DEFAULT_MESSAGE_TEMPLATE"
  by (simp add: DEFAULT_MESSAGE_TEMPLATE_def PLACEHOLDERS_def)

theorem formatTelegramMessage_total_witness:
  "well_formed_template (if ([]::string) = [] then DEFAULT_MESSAGE_TEMPLATE else [])
   \<and> clean_values (field_values (ex_env 1000 (JsonOk 7)) (ex_session\<lparr>userId := None, url := None\<rparr>))
   \<and> \<not> has_placeholder (formatTelegramMessage (ex_env 1000 (JsonOk 7))
          (ex_session\<lparr>userId := None, url := None\<rparr>) [])"
proof -
  have h1: "well_formed_template (if ([]::string) = [] then DEFAULT_MESSAGE_TEMPLATE else [])"
    using default_template_well_formed by simp
  have h2: "clean_values (field_values (ex_env 1000 (JsonOk 7)) (ex_session\<lparr>userId := None, url := None\<rparr>))"
    by (simp add: clean_values_def field_values_def ex_env_def ex_session_def js_or_def)
  from formatTelegramMessage_total[OF h1 h2] h1 h2 show ?thesis by blast
qed

text \<open>
  The claim as first stated fails. For an artifact without URL and user id whose user name
  is the text \<open>$&\<close>, the message keeps the placeholder of the user name, since \<open>$&\<close> in a
  replacement text stands for the match itself, and the missing URL is rendered as
  \<open>Unknown\<close>, not as \<open>Not found\<close>.
\<close>

theorem formatTelegramMessage_counterexample:
  "formatTelegramMessage (ex_env 1000 (JsonOk 7))
       (ex_session\<lparr>userId := None, username := Some ''$&'', url := None\<rparr>)
       ''{username} {userId} {url}''
     = ''{username} Not found Unknown''
   \<and> has_placeholder (formatTelegramMessage (ex_env 1000 (JsonOk 7))
       (ex_session\<lparr>userId := None, username := Some ''$&'', url := None\<rparr>)
       ''{username} {userId} {url}'')"
proof -
  have e: "formatTelegramMessage (ex_env 1000 (JsonOk 7))
       (ex_session\<lparr>userId := None, username := Some ''$&'', url := None\<rparr>)
       ''{username} {userId} {url}''
     = ''{username} Not found Unknown''"
    by (simp add: formatTelegramMessage_def replaceAll_def js_or_def ex_session_def ex_env_def)
  have "has_placeholder ''{username} Not found Unknown''"
    by (simp add: has_placeholder_def PLACEHOLDERS_def)
  with e show ?thesis by simp
qed

end
